theory Spec2Isabelle
  imports Complex_Main
begin

section \<open>Data model of the panoramic object-feature extraction\<close>

text \<open>
  The development embeds \<^verbatim>\<open>Eval.get_visual_features\<close> of
  \<^verbatim>\<open>models/eval/eval.py\<close>. An array is the list of its rows along the
  leading axis. The arrays of the detector hold finite floating-point numbers, read as
  their exact values (\<^typ>\<open>real\<close>).

  Python raises \<^verbatim>\<open>IndexError\<close> for a list index out of range and numpy raises
  \<^verbatim>\<open>ValueError\<close> when \<^verbatim>\<open>np.stack\<close> is given arrays of different shapes.
\<close>

datatype error = IndexError | ValueError

text \<open>
  A row of the \<open>K \<times> 4\<close> boxes tensor, columns 0 to 3: \<open>x1, y1, x2, y2\<close>. The tensor has
  the dtype float32.
\<close>

type_synonym box = "real \<times> real \<times> real \<times> real"

text \<open>
  The result of float32 arithmetic: a finite float32 number, or a value that is not
  finite (an infinity or NaN; the operations used here never tell them apart).
\<close>

datatype f32 = Finite real | NonFinite

text \<open>
  One element of \<^verbatim>\<open>camera_infos\<close>; the code reads the keys
  \<^verbatim>\<open>"h_view_angle"\<close> and \<^verbatim>\<open>"v_view_angle"\<close> and hands the whole
  dictionary on.
\<close>

record camera_info =
  h_view_angle :: real
  v_view_angle :: real

text \<open>
  One element of \<^verbatim>\<open>detector_results\<close>: the dictionary with the keys
  \<^verbatim>\<open>"features"\<close>, \<^verbatim>\<open>"boxes"\<close>, \<^verbatim>\<open>"scores"\<close>,
  \<^verbatim>\<open>"labels"\<close> and \<^verbatim>\<open>"masks"\<close>. Nothing forces the five arrays to have
  the same number of rows. A mask is a grid of pixel values.
\<close>

record detection_group =
  features :: "real list list"
  boxes :: "box list"
  scores :: "real list"
  labels :: "int list"
  masks :: "real list list list"

text \<open>The dictionary appended to \<^verbatim>\<open>object_features\<close> for one view.\<close>

record object_feature_record =
  box_features :: "real list list"
  roi_angles :: "(real \<times> real) list"
  boxes :: "box list"
  masks :: "bool list list list"
  class_probs :: "real list"
  class_labels :: "int list"
  camera_info :: camera_info
  num_objects :: nat

text \<open>
  \<^verbatim>\<open>calculate_angles\<close> of \<^verbatim>\<open>scripts/geometry_utils.py\<close> is imported by
  the module; it is a parameter of the model: x-centres, y-centres, horizontal and
  vertical view angle to the pair of angle sequences.
\<close>

type_synonym angle_fn = "f32 list \<Rightarrow> f32 list \<Rightarrow> real \<Rightarrow> real \<Rightarrow> real list \<times> real list"

section \<open>Primitives of Python and numpy used by the code\<close>

text \<open>\<^verbatim>\<open>xs[i]\<close> for an index \<open>i \<ge> 0\<close> of a Python list.\<close>

definition list_index :: "'a list \<Rightarrow> nat \<Rightarrow> error + 'a" where
  "list_index xs i = (if i < length xs then Inr (xs ! i) else Inl IndexError)"

text \<open>
  \<^verbatim>\<open>xs[:n]\<close> along the leading axis: the first \<open>n\<close> rows for \<open>n \<ge> 0\<close>, all
  rows when \<open>n\<close> exceeds their number, and all but the last \<open>-n\<close> rows for \<open>n < 0\<close>.
\<close>

definition slice_to :: "int \<Rightarrow> 'a list \<Rightarrow> 'a list" where
  "slice_to n xs = (if 0 \<le> n then take (nat n) xs else take (length xs - nat (- n)) xs)"

text \<open>
  Rounding of a real number to float32, to nearest with ties to even, as every float32
  operation rounds its exact result. A float32 number is \<open>m * 2 ^ k\<close> with \<open>\<bar>m\<bar> < 2 ^ 24\<close>
  and \<open>- 149 \<le> k \<le> 104\<close>. For \<open>x\<close> the spacing of the float32 numbers around it is
  \<open>2 ^ k\<close> for the least such \<open>k\<close> with \<open>\<bar>x\<bar> < 2 ^ (k + 24)\<close>; \<open>x\<close> is rounded to a multiple
  of it. A result of magnitude \<open>2 ^ 128\<close> or more is an infinity.
\<close>

definition round_half_even :: "real \<Rightarrow> int" where
  "round_half_even q =
     (if q - of_int \<lfloor>q\<rfloor> < 1 / 2 then \<lfloor>q\<rfloor>
      else if 1 / 2 < q - of_int \<lfloor>q\<rfloor> then \<lfloor>q\<rfloor> + 1
      else if even \<lfloor>q\<rfloor> then \<lfloor>q\<rfloor> else \<lfloor>q\<rfloor> + 1)"

definition ulp_exponent :: "real \<Rightarrow> int option" where
  "ulp_exponent x = find (\<lambda>k. \<bar>x\<bar> < 2 powi (k + 24)) [- 149..104]"

definition round_f32 :: "real \<Rightarrow> f32" where
  "round_f32 x =
     (case ulp_exponent x of
        None \<Rightarrow> NonFinite
      | Some k \<Rightarrow>
          (if 2 ^ 128 \<le> \<bar>of_int (round_half_even (x / 2 powi k)) * 2 powi k :: real\<bar>
           then NonFinite
           else Finite (of_int (round_half_even (x / 2 powi k)) * 2 powi k)))"

text \<open>\<^verbatim>\<open>a + b\<close> on float32 arrays, per element: the rounded sum.\<close>

definition f32_add :: "real \<Rightarrow> real \<Rightarrow> f32" where
  "f32_add a b = round_f32 (a + b)"

text \<open>
  \<^verbatim>\<open>a // 2\<close> on a float32 array, per element. For a finite \<open>a\<close> numpy computes
  the remainder \<open>fmod(a, 2)\<close>, the quotient \<open>(a - mod) / 2\<close>, one less when the remainder
  is negative, and its floor; each step is exact in float32, so the result is the floor
  of \<open>a / 2\<close>. For an infinity or NaN the remainder and the result are NaN.
\<close>

definition floor_divide_2 :: "f32 \<Rightarrow> f32" where
  "floor_divide_2 a = (case a of Finite s \<Rightarrow> Finite (of_int \<lfloor>s / 2\<rfloor>) | NonFinite \<Rightarrow> NonFinite)"

text \<open>Columns of the boxes array, \<^verbatim>\<open>coordinates[:, j]\<close>.\<close>

definition column0 :: "box list \<Rightarrow> real list" where
  "column0 coordinates = map (\<lambda>(c0, c1, c2, c3). c0) coordinates"

definition column1 :: "box list \<Rightarrow> real list" where
  "column1 coordinates = map (\<lambda>(c0, c1, c2, c3). c1) coordinates"

definition column2 :: "box list \<Rightarrow> real list" where
  "column2 coordinates = map (\<lambda>(c0, c1, c2, c3). c2) coordinates"

definition column3 :: "box list \<Rightarrow> real list" where
  "column3 coordinates = map (\<lambda>(c0, c1, c2, c3). c3) coordinates"

text \<open>
  \<^verbatim>\<open>np.stack([h_angle, v_angle], 1)\<close> of two one-dimensional arrays: the array
  whose row \<open>j\<close> is \<open>(h_angle[j], v_angle[j])\<close>; it raises when the shapes differ.
\<close>

definition np_stack :: "real list \<Rightarrow> real list \<Rightarrow> error + (real \<times> real) list" where
  "np_stack h_angle v_angle =
     (if length h_angle = length v_angle then Inr (zip h_angle v_angle) else Inl ValueError)"

section \<open>The function\<close>

text \<open>Lines 176 to 177: the pair of centre arrays.\<close>

definition center_coords :: "box list \<Rightarrow> f32 list \<times> f32 list" where
  "center_coords coordinates =
     (map floor_divide_2 (map2 f32_add (column0 coordinates) (column2 coordinates)),
      map floor_divide_2 (map2 f32_add (column1 coordinates) (column3 coordinates)))"

text \<open>Lines 174 to 189: the angle array of view \<open>i\<close>, before truncation.\<close>

definition boxes_angles :: "angle_fn \<Rightarrow> camera_info list \<Rightarrow> nat \<Rightarrow> box list
    \<Rightarrow> error + (real \<times> real) list" where
  "boxes_angles calculate_angles camera_infos i coordinates =
     (if length coordinates > 0 then
        (case list_index camera_infos i of
           Inl e \<Rightarrow> Inl e
         | Inr cam \<Rightarrow>
             (case calculate_angles (fst (center_coords coordinates))
                     (snd (center_coords coordinates)) (h_view_angle cam) (v_view_angle cam) of
                (h_angle, v_angle) \<Rightarrow> np_stack h_angle v_angle))
      else Inr (replicate (length coordinates) (0, 0)))"

text \<open>Line 202, \<^verbatim>\<open>masks > 0.5\<close>: the comparison of every element.\<close>

definition binarize :: "real list list list \<Rightarrow> bool list list list" where
  "binarize ms = map (map (map (\<lambda>v. v > 0.5))) ms"

text \<open>Lines 167 to 207: one iteration of the loop, for view \<open>i\<close>.\<close>

definition get_visual_features_body :: "angle_fn \<Rightarrow> int list \<Rightarrow> camera_info list
    \<Rightarrow> detection_group list \<Rightarrow> nat \<Rightarrow> error + object_feature_record" where
  "get_visual_features_body calculate_angles panoramic_boxes camera_infos detector_results i =
     (case list_index panoramic_boxes i of
        Inl e \<Rightarrow> Inl e
      | Inr num_boxes \<Rightarrow>
          (let d = detector_results ! i in
           case boxes_angles calculate_angles camera_infos i (detection_group.boxes d) of
             Inl e \<Rightarrow> Inl e
           | Inr angles \<Rightarrow>
               (case list_index camera_infos i of
                  Inl e \<Rightarrow> Inl e
                | Inr cam \<Rightarrow>
                    Inr \<lparr>box_features = slice_to num_boxes (features d),
                         roi_angles = slice_to num_boxes angles,
                         boxes = slice_to num_boxes (detection_group.boxes d),
                         masks = binarize (slice_to num_boxes (detection_group.masks d)),
                         class_probs = slice_to num_boxes (scores d),
                         class_labels = slice_to num_boxes (labels d),
                         camera_info = cam,
                         num_objects = length (slice_to num_boxes (features d))\<rparr>)))"

text \<open>
  Lines 164 to 209: the loop over the view indices with the list \<^verbatim>\<open>object_features\<close>
  it appends to; an exception in one iteration ends the call.
\<close>

fun get_visual_features_loop :: "(nat \<Rightarrow> error + object_feature_record) \<Rightarrow> nat list
    \<Rightarrow> object_feature_record list \<Rightarrow> error + object_feature_record list" where
  "get_visual_features_loop body [] object_features = Inr object_features"
| "get_visual_features_loop body (i # idx) object_features =
     (case body i of
        Inl e \<Rightarrow> Inl e
      | Inr r \<Rightarrow> get_visual_features_loop body idx (object_features @ [r]))"

definition assemble_views :: "angle_fn \<Rightarrow> int list \<Rightarrow> camera_info list
    \<Rightarrow> detection_group list \<Rightarrow> error + object_feature_record list" where
  "assemble_views calculate_angles panoramic_boxes camera_infos detector_results =
     get_visual_features_loop
       (get_visual_features_body calculate_angles panoramic_boxes camera_infos detector_results)
       [0..<length detector_results] []"

text \<open>
  \<^verbatim>\<open>create_panorama\<close>, the image loader and the region detector are parameters of
  the model. Each is an operation on the state \<open>'w\<close> of the world outside the function
  (the simulator, the device): it takes the state and returns its result with the new
  state. A call of a collaborator runs the operation and appends the call, with its
  arguments, to the log kept beside the state; nothing else writes to the log.
\<close>

datatype ('env, 'img, 'batch) call =
    Create_panorama 'env int
  | Image_loader "'img list" bool
  | Region_detector 'batch

definition call_create_panorama ::
  "('env \<Rightarrow> int \<Rightarrow> 'w \<Rightarrow> ('img list \<times> camera_info list) \<times> 'w) \<Rightarrow> 'env \<Rightarrow> int
    \<Rightarrow> 'w \<times> ('env, 'img, 'batch) call list
    \<Rightarrow> ('img list \<times> camera_info list) \<times> ('w \<times> ('env, 'img, 'batch) call list)" where
  "call_create_panorama create_panorama env start s =
     (case create_panorama env start (fst s) of
        (r, w) \<Rightarrow> (r, (w, snd s @ [Create_panorama env start])))"

definition call_image_loader ::
  "('img list \<Rightarrow> bool \<Rightarrow> 'w \<Rightarrow> ('batch \<times> 'sizes) \<times> 'w) \<Rightarrow> 'img list \<Rightarrow> bool
    \<Rightarrow> 'w \<times> ('env, 'img, 'batch) call list
    \<Rightarrow> ('batch \<times> 'sizes) \<times> ('w \<times> ('env, 'img, 'batch) call list)" where
  "call_image_loader image_loader images pack s =
     (case image_loader images pack (fst s) of
        (r, w) \<Rightarrow> (r, (w, snd s @ [Image_loader images pack])))"

definition call_region_detector ::
  "('batch \<Rightarrow> 'w \<Rightarrow> detection_group list \<times> 'w) \<Rightarrow> 'batch
    \<Rightarrow> 'w \<times> ('env, 'img, 'batch) call list
    \<Rightarrow> detection_group list \<times> ('w \<times> ('env, 'img, 'batch) call list)" where
  "call_region_detector region_detector images s =
     (case region_detector images (fst s) of
        (r, w) \<Rightarrow> (r, (w, snd s @ [Region_detector images])))"

text \<open>
  Lines 150 to 209. The state and the log are threaded through the three calls in the
  order of the statements; \<^verbatim>\<open>images.to(cuda_device)\<close> is the tensor method, a
  parameter too. The result is what the function returns or raises, with the state and
  the log it leaves behind.
\<close>

definition get_visual_features ::
  "('env \<Rightarrow> int \<Rightarrow> 'w \<Rightarrow> ('img list \<times> camera_info list) \<times> 'w) \<Rightarrow> angle_fn
    \<Rightarrow> ('batch \<Rightarrow> 'dev \<Rightarrow> 'batch) \<Rightarrow> 'env
    \<Rightarrow> ('img list \<Rightarrow> bool \<Rightarrow> 'w \<Rightarrow> ('batch \<times> 'sizes) \<times> 'w)
    \<Rightarrow> ('batch \<Rightarrow> 'w \<Rightarrow> detection_group list \<times> 'w)
    \<Rightarrow> int list \<Rightarrow> 'dev \<Rightarrow> 'w \<times> ('env, 'img, 'batch) call list
    \<Rightarrow> (error + object_feature_record list) \<times> ('w \<times> ('env, 'img, 'batch) call list)" where
  "get_visual_features create_panorama calculate_angles to env image_loader region_detector
       panoramic_boxes cuda_device s0 =
     (case call_create_panorama create_panorama env 0 s0 of
        ((panorama_images, camera_infos), s1) \<Rightarrow>
          (case call_image_loader image_loader panorama_images True s1 of
             ((images, sizes), s2) \<Rightarrow>
               (case call_region_detector region_detector (to images cuda_device) s2 of
                  (detector_results, s3) \<Rightarrow>
                    (assemble_views calculate_angles panoramic_boxes camera_infos
                       detector_results, s3))))"

section \<open>Contracts of the collaborators and the centre of one box\<close>

text \<open>
  The contract of \<^verbatim>\<open>calculate_angles\<close>: for \<open>N\<close> centre points it returns two
  sequences of length \<open>N\<close>.
\<close>

definition shape_preserving :: "angle_fn \<Rightarrow> bool" where
  "shape_preserving calculate_angles \<longleftrightarrow>
     (\<forall>xs ys h v. length xs = length ys \<longrightarrow>
        length (fst (calculate_angles xs ys h v)) = length xs \<and>
        length (snd (calculate_angles xs ys h v)) = length xs)"

text \<open>
  The centre of one box: the operations of lines 176 to 177 on a single row.
\<close>

definition box_center :: "box \<Rightarrow> f32 \<times> f32" where
  "box_center b =
     (case b of (x1, y1, x2, y2) \<Rightarrow>
        (floor_divide_2 (f32_add x1 x2), floor_divide_2 (f32_add y1 y2)))"

text \<open>
  The contract of \<^verbatim>\<open>calculate_angles\<close> as a vectorised function: the angles of
  point \<open>j\<close> are those of the function \<open>point\<close> on the coordinates of point \<open>j\<close> and the
  two view angles, whatever the other points are.
\<close>

definition elementwise :: "angle_fn \<Rightarrow> (f32 \<Rightarrow> f32 \<Rightarrow> real \<Rightarrow> real \<Rightarrow> real \<times> real) \<Rightarrow> bool" where
  "elementwise calculate_angles point \<longleftrightarrow>
     (\<forall>xs ys h v. length xs = length ys \<longrightarrow>
        calculate_angles xs ys h v =
          (map2 (\<lambda>x y. fst (point x y h v)) xs ys, map2 (\<lambda>x y. snd (point x y h v)) xs ys))"

text \<open>
  The contract of the region detector: a view with \<open>K\<close> detections has \<open>K\<close> rows in
  each of its five arrays.
\<close>

definition has_detections :: "nat \<Rightarrow> detection_group \<Rightarrow> bool" where
  "has_detections K d \<longleftrightarrow>
     length (features d) = K \<and> length (detection_group.boxes d) = K \<and> length (scores d) = K \<and>
     length (labels d) = K \<and> length (detection_group.masks d) = K"

section \<open>Sample inputs\<close>

text \<open>
  A sample angle function (a linear map of the pixel position in a frame of side 300 to
  half the view angle), a camera and two views: one with three detections, one with none.
\<close>

definition linear_angle :: "f32 \<Rightarrow> real \<Rightarrow> real" where
  "linear_angle c fov = (case c of Finite x \<Rightarrow> (x - 150) / 150 * (fov / 2) | NonFinite \<Rightarrow> 0)"

definition linear_point :: "f32 \<Rightarrow> f32 \<Rightarrow> real \<Rightarrow> real \<Rightarrow> real \<times> real" where
  "linear_point x y h v = (linear_angle x h, linear_angle y v)"

definition linear_angles :: angle_fn where
  "linear_angles xs ys h v = (map (\<lambda>x. linear_angle x h) xs, map (\<lambda>y. linear_angle y v) ys)"

definition cam90 :: camera_info where
  "cam90 = \<lparr>h_view_angle = 90, v_view_angle = 90\<rparr>"

definition view3 :: detection_group where
  "view3 = \<lparr>features = [[1, 2], [3, 4], [5, 6]],
            boxes = [(1, 1, 2, 2), (0, 0, 300, 300), (10, 20, 31, 41)],
            scores = [0.4, 0.9, 0.7],
            labels = [7, 3, 5],
            masks = [[[0.5, 0.6]], [[0.2, 0.9]], [[1, 0]]]\<rparr>"

definition view0 :: detection_group where
  "view0 = \<lparr>features = [], boxes = [], scores = [], labels = [], masks = []\<rparr>"

definition sample_records :: "object_feature_record list" where
  "sample_records =
     [\<lparr>box_features = [[1, 2], [3, 4]],
       roi_angles = [(- (447 / 10), - (447 / 10)), (0, 0)],
       boxes = [(1, 1, 2, 2), (0, 0, 300, 300)],
       masks = [[[False, True]], [[False, True]]],
       class_probs = [2 / 5, 9 / 10], class_labels = [7, 3],
       camera_info = cam90, num_objects = 2\<rparr>,
      \<lparr>box_features = [], roi_angles = [], boxes = [], masks = [],
       class_probs = [], class_labels = [],
       camera_info = cam90, num_objects = 0\<rparr>]"

text \<open>
  A view whose five arrays disagree in their number of rows: two feature rows, one box,
  three scores, one label, one mask.
\<close>

definition mismatched_view :: detection_group where
  "mismatched_view = \<lparr>features = [[1, 2], [3, 4]],
            boxes = [(1, 1, 2, 2)],
            scores = [0.4, 0.9, 0.7],
            labels = [7],
            masks = [[[0.5, 0.6]]]\<rparr>"

text \<open>
  A view with one box whose coordinate sums, \<open>300 - 2 ^ - 16\<close>, are not float32 numbers:
  \<open>100.5\<close> and \<open>199.5 - 2 ^ - 16\<close> are.
\<close>

definition rounding_view :: detection_group where
  "rounding_view = \<lparr>features = [[1, 2]],
            boxes = [(201 / 2, 201 / 2, 13074431 / 65536, 13074431 / 65536)],
            scores = [1 / 2],
            labels = [7],
            masks = [[[1]]]\<rparr>"

text \<open>
  Sample collaborators for a panorama of two views: the environment and the device are
  numbers, an image is a name, the packed batch is the list of the images. The state of
  the world counts the runs of each collaborator: captures of a panorama, runs of the
  image loader, runs of the detector.
\<close>

definition sample_create_panorama ::
  "nat \<Rightarrow> int \<Rightarrow> nat \<times> nat \<times> nat
    \<Rightarrow> (string list \<times> camera_info list) \<times> (nat \<times> nat \<times> nat)" where
  "sample_create_panorama env start w =
     (case w of (captures, loads, detections) \<Rightarrow>
        (([''view 0'', ''view 1''], [cam90, cam90]), (captures + 1, loads, detections)))"

definition sample_image_loader ::
  "string list \<Rightarrow> bool \<Rightarrow> nat \<times> nat \<times> nat
    \<Rightarrow> (string list \<times> (nat \<times> nat) list) \<times> (nat \<times> nat \<times> nat)" where
  "sample_image_loader imgs pack w =
     (case w of (captures, loads, detections) \<Rightarrow>
        ((imgs, map (\<lambda>_. (300, 300)) imgs), (captures, loads + 1, detections)))"

definition sample_to :: "string list \<Rightarrow> nat \<Rightarrow> string list" where
  "sample_to images device = images"

definition sample_region_detector ::
  "string list \<Rightarrow> nat \<times> nat \<times> nat \<Rightarrow> detection_group list \<times> (nat \<times> nat \<times> nat)" where
  "sample_region_detector images w =
     (case w of (captures, loads, detections) \<Rightarrow>
        ([view3, view0], (captures, loads, detections + 1)))"

section \<open>Properties of the primitives\<close>

lemma slice_to_nonneg: "0 \<le> n \<Longrightarrow> slice_to n xs = take (nat n) xs"
  by (simp add: slice_to_def)

lemma length_slice_to: "0 \<le> n \<Longrightarrow> length (slice_to n xs) = min (length xs) (nat n)"
  by (simp add: slice_to_def)

lemma slice_to_Nil: "slice_to n [] = []"
  by (simp add: slice_to_def)

lemma length_binarize: "length (binarize ms) = length ms"
  by (simp add: binarize_def)

lemma length_center_coords:
  "length (fst (center_coords bs)) = length bs" "length (snd (center_coords bs)) = length bs"
  by (simp_all add: center_coords_def column0_def column1_def column2_def column3_def)

lemma center_coords_map:
  "center_coords bs = (map (\<lambda>b. fst (box_center b)) bs, map (\<lambda>b. snd (box_center b)) bs)"
  by (induction bs)
     (auto simp: center_coords_def column0_def column1_def column2_def column3_def box_center_def)

lemma center_coords_nth:
  assumes "j < length bs"
  shows "fst (center_coords bs) ! j = fst (box_center (bs ! j))"
    and "snd (center_coords bs) ! j = snd (box_center (bs ! j))"
  using assms by (simp_all add: center_coords_map)

lemma box_center_formula:
  "box_center (x1, y1, x2, y2) =
     ((case round_f32 (x1 + x2) of Finite s \<Rightarrow> Finite (of_int \<lfloor>s / 2\<rfloor>) | NonFinite \<Rightarrow> NonFinite),
      (case round_f32 (y1 + y2) of Finite s \<Rightarrow> Finite (of_int \<lfloor>s / 2\<rfloor>) | NonFinite \<Rightarrow> NonFinite))"
  by (simp add: box_center_def floor_divide_2_def f32_add_def)

lemma round_f32_samples:
  "round_f32 0 = Finite 0" "round_f32 3 = Finite 3" "round_f32 300 = Finite 300"
  "round_f32 41 = Finite 41" "round_f32 61 = Finite 61"
  "round_f32 (201 / 2 + 13074431 / 65536) = Finite 300"
  by (simp_all add: round_f32_def ulp_exponent_def round_half_even_def)

lemma box_center_samples:
  "box_center (1, 1, 2, 2) = (Finite 1, Finite 1)"
  "box_center (0, 0, 300, 300) = (Finite 150, Finite 150)"
  "box_center (10, 20, 31, 41) = (Finite 20, Finite 30)"
  "box_center (201 / 2, 201 / 2, 13074431 / 65536, 13074431 / 65536) = (Finite 150, Finite 150)"
proof -
  have s: "(1::real) + 2 = 3" "(0::real) + 300 = 300" "(10::real) + 31 = 41" "(20::real) + 41 = 61"
    by simp_all
  show "box_center (1, 1, 2, 2) = (Finite 1, Finite 1)"
    "box_center (0, 0, 300, 300) = (Finite 150, Finite 150)"
    "box_center (10, 20, 31, 41) = (Finite 20, Finite 30)"
    "box_center (201 / 2, 201 / 2, 13074431 / 65536, 13074431 / 65536) = (Finite 150, Finite 150)"
    unfolding box_center_formula prod.case s round_f32_samples by simp_all
qed

lemma slice_to_nth: "j < length (slice_to n xs) \<Longrightarrow> slice_to n xs ! j = xs ! j"
  by (simp add: slice_to_def split: if_splits)

lemma take_length_take: "take (length (take k xs)) xs = take k xs"
  by (cases "k \<le> length xs") (simp_all add: min_def)

lemma slice_to_take: "slice_to n xs = take (length (slice_to n xs)) xs"
proof (cases "0 \<le> n")
  case True
  then have "slice_to n xs = take (nat n) xs" by (simp add: slice_to_def)
  then show ?thesis by (simp only: take_length_take)
next
  case False
  then have "slice_to n xs = take (length xs - nat (- n)) xs" by (simp add: slice_to_def)
  then show ?thesis by (simp only: take_length_take)
qed

lemma binarize_nth:
  "j < length ms \<Longrightarrow> binarize ms ! j = map (map (\<lambda>v. v > 0.5)) (ms ! j)"
  by (simp add: binarize_def)

lemma binarize_take: "binarize (take n ms) = take n (binarize ms)"
  by (simp add: binarize_def take_map)

section \<open>The angle array\<close>

lemma boxes_angles_Nil: "boxes_angles calc cams i [] = Inr []"
  by (simp add: boxes_angles_def)

lemma boxes_angles_Cons:
  assumes "bs \<noteq> []" and "list_index cams i = Inr cam"
  shows "boxes_angles calc cams i bs =
     np_stack (fst (calc (fst (center_coords bs)) (snd (center_coords bs))
                      (h_view_angle cam) (v_view_angle cam)))
              (snd (calc (fst (center_coords bs)) (snd (center_coords bs))
                      (h_view_angle cam) (v_view_angle cam)))"
  using assms by (simp add: boxes_angles_def split: prod.splits)

lemma np_stack_shape:
  assumes "shape_preserving calc" and "length xs = length ys"
  shows "np_stack (fst (calc xs ys h v)) (snd (calc xs ys h v)) =
           Inr (zip (fst (calc xs ys h v)) (snd (calc xs ys h v)))"
    and "length (zip (fst (calc xs ys h v)) (snd (calc xs ys h v))) = length xs"
  using assms by (simp_all add: np_stack_def shape_preserving_def)

lemma boxes_angles_length:
  assumes "shape_preserving calc" and "boxes_angles calc cams i bs = Inr angles"
  shows "length angles = length bs"
proof (cases "bs = []")
  case True
  with assms(2) show ?thesis by (simp add: boxes_angles_Nil)
next
  case False
  from assms(2) False obtain cam where cam: "list_index cams i = Inr cam"
    by (auto simp: boxes_angles_def split: sum.splits)
  have len: "length (fst (center_coords bs)) = length (snd (center_coords bs))"
    by (simp add: length_center_coords)
  from assms(2) show ?thesis
    unfolding boxes_angles_Cons [OF False cam] np_stack_shape(1) [OF assms(1) len]
    using np_stack_shape(2) [OF assms(1) len] by (auto simp: length_center_coords)
qed

lemma boxes_angles_error:
  assumes "shape_preserving calc" and "boxes_angles calc cams i bs = Inl e"
  shows "e = IndexError"
proof (cases "bs = []")
  case True
  with assms(2) show ?thesis by (simp add: boxes_angles_Nil)
next
  case False
  have len: "length (fst (center_coords bs)) = length (snd (center_coords bs))"
    by (simp add: length_center_coords)
  show ?thesis
  proof (cases "list_index cams i")
    case (Inl e')
    with assms(2) False show ?thesis
      by (auto simp: boxes_angles_def list_index_def split: if_splits)
  next
    case (Inr cam)
    from assms(2) show ?thesis
      unfolding boxes_angles_Cons [OF False Inr] np_stack_shape(1) [OF assms(1) len] by simp
  qed
qed

lemma boxes_angles_run:
  assumes "shape_preserving calc" and "bs \<noteq> []" and "i < length cams"
  shows "boxes_angles calc cams i bs =
     Inr (zip (fst (calc (fst (center_coords bs)) (snd (center_coords bs))
                      (h_view_angle (cams ! i)) (v_view_angle (cams ! i))))
              (snd (calc (fst (center_coords bs)) (snd (center_coords bs))
                      (h_view_angle (cams ! i)) (v_view_angle (cams ! i)))))"
proof -
  have cam: "list_index cams i = Inr (cams ! i)" using assms(3) by (simp add: list_index_def)
  have len: "length (fst (center_coords bs)) = length (snd (center_coords bs))"
    by (simp add: length_center_coords)
  show ?thesis
    unfolding boxes_angles_Cons [OF assms(2) cam] by (rule np_stack_shape(1) [OF assms(1) len])
qed

lemma calc_lengths:
  assumes "shape_preserving calc"
  shows "length (fst (calc (fst (center_coords bs)) (snd (center_coords bs)) h v)) = length bs"
    and "length (snd (calc (fst (center_coords bs)) (snd (center_coords bs)) h v)) = length bs"
  using assms by (simp_all add: shape_preserving_def length_center_coords)

lemma elementwise_shape_preserving:
  assumes "elementwise calc point"
  shows "shape_preserving calc"
  using assms by (simp add: elementwise_def shape_preserving_def)

lemma elementwise_nth:
  assumes "elementwise calc point" and "length xs = length ys" and "j < length xs"
  shows "(fst (calc xs ys h v) ! j, snd (calc xs ys h v) ! j) = point (xs ! j) (ys ! j) h v"
  using assms by (simp add: elementwise_def)

lemma boxes_angles_total:
  assumes "shape_preserving calc" and "i < length cams"
  shows "\<exists>angles. boxes_angles calc cams i bs = Inr angles \<and> length angles = length bs"
proof (cases "bs = []")
  case True
  then show ?thesis by (simp add: boxes_angles_Nil)
next
  case False
  from boxes_angles_run [OF assms(1) False assms(2)] boxes_angles_length [OF assms(1)]
  show ?thesis by blast
qed

section \<open>One iteration\<close>

lemma body_Inr:
  assumes "get_visual_features_body calc caps cams dets i = Inr r"
  shows "\<exists>C cam angles. list_index caps i = Inr C \<and> list_index cams i = Inr cam \<and>
           boxes_angles calc cams i (detection_group.boxes (dets ! i)) = Inr angles \<and>
           r = \<lparr>box_features = slice_to C (features (dets ! i)),
                roi_angles = slice_to C angles,
                boxes = slice_to C (detection_group.boxes (dets ! i)),
                masks = binarize (slice_to C (detection_group.masks (dets ! i))),
                class_probs = slice_to C (scores (dets ! i)),
                class_labels = slice_to C (labels (dets ! i)),
                camera_info = cam,
                num_objects = length (slice_to C (features (dets ! i)))\<rparr>"
  using assms by (auto simp: get_visual_features_body_def Let_def split: sum.splits)

lemma body_error:
  assumes "shape_preserving calc" and "get_visual_features_body calc caps cams dets i = Inl e"
  shows "e = IndexError"
  using assms boxes_angles_error [OF assms(1)]
  by (auto simp: get_visual_features_body_def Let_def list_index_def split: sum.splits if_splits)

lemma body_total:
  assumes "shape_preserving calc" and "i < length caps" and "i < length cams"
  shows "\<exists>angles. length angles = length (detection_group.boxes (dets ! i)) \<and>
     get_visual_features_body calc caps cams dets i =
       Inr \<lparr>box_features = slice_to (caps ! i) (features (dets ! i)),
            roi_angles = slice_to (caps ! i) angles,
            boxes = slice_to (caps ! i) (detection_group.boxes (dets ! i)),
            masks = binarize (slice_to (caps ! i) (detection_group.masks (dets ! i))),
            class_probs = slice_to (caps ! i) (scores (dets ! i)),
            class_labels = slice_to (caps ! i) (labels (dets ! i)),
            camera_info = cams ! i,
            num_objects = length (slice_to (caps ! i) (features (dets ! i)))\<rparr>"
proof -
  from boxes_angles_total [OF assms(1,3)] obtain angles
    where "boxes_angles calc cams i (detection_group.boxes (dets ! i)) = Inr angles"
      and "length angles = length (detection_group.boxes (dets ! i))" by blast
  with assms(2,3) show ?thesis
    by (intro exI [of _ angles]) (simp add: get_visual_features_body_def list_index_def Let_def)
qed

section \<open>The loop\<close>

lemma loop_Inr: "get_visual_features_loop body idx acc = Inr recs \<Longrightarrow>
   \<exists>rs. recs = acc @ rs \<and> map body idx = map Inr rs"
proof (induction idx arbitrary: acc)
  case Nil
  then show ?case by simp
next
  case (Cons i idx)
  then obtain r where r: "body i = Inr r" 
    and rest: "get_visual_features_loop body idx (acc @ [r]) = Inr recs"
    by (auto split: sum.splits)
  from Cons.IH [OF rest] obtain rs where "recs = (acc @ [r]) @ rs" "map body idx = map Inr rs"
    by blast
  then have "recs = acc @ (r # rs) \<and> map body (i # idx) = map Inr (r # rs)"
    using r by simp
  then show ?case by blast
qed

lemma loop_Inr_conv: "map body idx = map Inr rs \<Longrightarrow>
   get_visual_features_loop body idx acc = Inr (acc @ rs)"
  by (induction idx arbitrary: acc rs) auto

lemma loop_Inl: "get_visual_features_loop body idx acc = Inl e \<Longrightarrow> \<exists>i \<in> set idx. body i = Inl e"
  by (induction idx arbitrary: acc) (auto split: sum.splits)

lemma assemble_views_Inr:
  assumes "assemble_views calc caps cams dets = Inr recs"
  shows "length recs = length dets"
    and "i < length dets \<Longrightarrow> get_visual_features_body calc caps cams dets i = Inr (recs ! i)"
proof -
  from assms obtain rs where rs: "recs = [] @ rs"
     "map (get_visual_features_body calc caps cams dets) [0..<length dets] = map Inr rs"
    unfolding assemble_views_def by (blast dest: loop_Inr)
  from rs(2) have "length [0..<length dets] = length rs"
    by (metis length_map)
  with rs(1) show len: "length recs = length dets" by simp
  assume i: "i < length dets"
  then have "get_visual_features_body calc caps cams dets i =
      map (get_visual_features_body calc caps cams dets) [0..<length dets] ! i" by simp
  also have "\<dots> = map Inr rs ! i" by (simp only: rs(2))
  also have "\<dots> = Inr (recs ! i)" using i len rs(1) by simp
  finally show "get_visual_features_body calc caps cams dets i = Inr (recs ! i)" .
qed

lemma assemble_views_total:
  assumes "\<And>i. i < length dets \<Longrightarrow> \<exists>r. get_visual_features_body calc caps cams dets i = Inr r"
  shows "\<exists>recs. assemble_views calc caps cams dets = Inr recs"
proof (cases "assemble_views calc caps cams dets")
  case (Inl e)
  then obtain i where "i \<in> set [0..<length dets]"
      "get_visual_features_body calc caps cams dets i = Inl e"
    unfolding assemble_views_def by (blast dest: loop_Inl)
  with assms show ?thesis by fastforce
next
  case (Inr recs)
  then show ?thesis by blast
qed

lemma body_of_run:
  assumes "assemble_views calc caps cams dets = Inr recs" and "i < length dets"
  shows "\<exists>C angles. list_index caps i = Inr C \<and> i < length cams \<and>
           boxes_angles calc cams i (detection_group.boxes (dets ! i)) = Inr angles \<and>
           recs ! i = \<lparr>box_features = slice_to C (features (dets ! i)),
                roi_angles = slice_to C angles,
                boxes = slice_to C (detection_group.boxes (dets ! i)),
                masks = binarize (slice_to C (detection_group.masks (dets ! i))),
                class_probs = slice_to C (scores (dets ! i)),
                class_labels = slice_to C (labels (dets ! i)),
                camera_info = cams ! i,
                num_objects = length (slice_to C (features (dets ! i)))\<rparr>"
proof -
  from body_Inr [OF assemble_views_Inr(2) [OF assms]]
  obtain C cam angles where *: "list_index caps i = Inr C" "list_index cams i = Inr cam"
    "boxes_angles calc cams i (detection_group.boxes (dets ! i)) = Inr angles"
    "recs ! i = \<lparr>box_features = slice_to C (features (dets ! i)),
                roi_angles = slice_to C angles,
                boxes = slice_to C (detection_group.boxes (dets ! i)),
                masks = binarize (slice_to C (detection_group.masks (dets ! i))),
                class_probs = slice_to C (scores (dets ! i)),
                class_labels = slice_to C (labels (dets ! i)),
                camera_info = cam,
                num_objects = length (slice_to C (features (dets ! i)))\<rparr>"
    by blast
  from *(2) have "i < length cams" "cam = cams ! i"
    by (auto simp: list_index_def split: if_splits)
  with * show ?thesis by blast
qed

section \<open>The sample run\<close>

lemma shape_preserving_linear_angles: "shape_preserving linear_angles"
  by (simp add: shape_preserving_def linear_angles_def)

lemma map2_left: "length xs = length ys \<Longrightarrow> map2 (\<lambda>x y. f x) xs ys = map f xs"
  by (induction xs ys rule: list_induct2) simp_all

lemma map2_right: "length xs = length ys \<Longrightarrow> map2 (\<lambda>x y. g y) xs ys = map g ys"
  by (induction xs ys rule: list_induct2) simp_all

lemma elementwise_linear_angles: "elementwise linear_angles linear_point"
  by (simp add: elementwise_def linear_angles_def linear_point_def map2_left map2_right)

lemma center_coords_view3:
  "center_coords (detection_group.boxes view3) =
     ([Finite 1, Finite 150, Finite 20], [Finite 1, Finite 150, Finite 30])"
  by (simp add: center_coords_map view3_def box_center_samples)

lemma body_view3:
  "get_visual_features_body linear_angles [2, 2] [cam90, cam90] [view3, view0] 0 = Inr (sample_records ! 0)"
  by (simp add: get_visual_features_body_def boxes_angles_def list_index_def center_coords_view3
       Let_def linear_angles_def linear_angle_def np_stack_def slice_to_def binarize_def
       sample_records_def)
     (simp add: view3_def cam90_def)

lemma body_view0:
  "get_visual_features_body linear_angles [2, 2] [cam90, cam90] [view3, view0] 1 = Inr (sample_records ! 1)"
  by (simp add: get_visual_features_body_def boxes_angles_def list_index_def
       Let_def slice_to_def binarize_def sample_records_def view0_def)

lemma sample_run:
  "assemble_views linear_angles [2, 2] [cam90, cam90] [view3, view0] = Inr sample_records"
proof -
  have idx: "[0..<length [view3, view0]] = [0, 1]" by (simp add: upt_rec)
  show ?thesis
    unfolding assemble_views_def idx
    using body_view3 body_view0 by (simp add: sample_records_def)
qed

lemma sample_hyps:
  "(0::nat) < length [view3, view0]" "(1::nat) < length [view3, view0]"
  "has_detections 3 ([view3, view0] ! 0)" "has_detections 0 ([view3, view0] ! 1)"
  "list_index [2, 2] 0 = Inr (2::int)" "list_index [2, 2] 1 = Inr (2::int)"
  by (simp_all add: has_detections_def view3_def view0_def list_index_def)

lemma rounding_view_run:
  "assemble_views linear_angles [2] [cam90] [rounding_view] =
     Inr [\<lparr>box_features = [[1, 2]],
           roi_angles = [(0, 0)],
           boxes = [(201 / 2, 201 / 2, 13074431 / 65536, 13074431 / 65536)],
           masks = [[[True]]],
           class_probs = [1 / 2],
           class_labels = [7],
           camera_info = cam90,
           num_objects = 1\<rparr>]"
proof -
  have cc: "center_coords [(201 / 2, 201 / 2, 13074431 / 65536, 13074431 / 65536)] =
     ([Finite 150], [Finite 150])"
    by (simp add: center_coords_map box_center_samples)
  have idx: "[0..<length [rounding_view]] = [0]" by simp
  have bs: "detection_group.boxes rounding_view =
      [(201 / 2, 201 / 2, 13074431 / 65536, 13074431 / 65536)]"
    by (simp add: rounding_view_def)
  have body: "get_visual_features_body linear_angles [2] [cam90] [rounding_view] 0 =
     Inr \<lparr>box_features = [[1, 2]],
           roi_angles = [(0, 0)],
           boxes = [(201 / 2, 201 / 2, 13074431 / 65536, 13074431 / 65536)],
           masks = [[[True]]],
           class_probs = [1 / 2],
           class_labels = [7],
           camera_info = cam90,
           num_objects = 1\<rparr>"
    by (simp add: get_visual_features_body_def boxes_angles_def list_index_def bs cc
         Let_def linear_angles_def linear_angle_def np_stack_def slice_to_def binarize_def)
       (simp add: rounding_view_def cam90_def)
  show "assemble_views linear_angles [2] [cam90] [rounding_view] =
     Inr [\<lparr>box_features = [[1, 2]],
           roi_angles = [(0, 0)],
           boxes = [(201 / 2, 201 / 2, 13074431 / 65536, 13074431 / 65536)],
           masks = [[[True]]],
           class_probs = [1 / 2],
           class_labels = [7],
           camera_info = cam90,
           num_objects = 1\<rparr>]"
    unfolding assemble_views_def idx using body by simp
qed

section \<open>Object counts\<close>

text \<open>
  C1. For a view with \<open>K\<close> detections and cap \<open>C \<ge> 0\<close> (the entry of
  \<^verbatim>\<open>args.panoramic_boxes\<close> at the view's index), the record of the view has
  \<open>min K C\<close> entries in each of the six per-object arrays, and \<^verbatim>\<open>num_objects\<close>
  is \<open>min K C\<close>.
\<close>

theorem kept_count_is_min:
  assumes "shape_preserving calc"
    and "assemble_views calc caps cams dets = Inr recs"
    and "i < length dets"
    and "has_detections K (dets ! i)"
    and "list_index caps i = Inr C" and "0 \<le> C"
  shows "length (box_features (recs ! i)) = min K (nat C) \<and>
         length (roi_angles (recs ! i)) = min K (nat C) \<and>
         length (boxes (recs ! i)) = min K (nat C) \<and>
         length (masks (recs ! i)) = min K (nat C) \<and>
         length (class_probs (recs ! i)) = min K (nat C) \<and>
         length (class_labels (recs ! i)) = min K (nat C) \<and>
         num_objects (recs ! i) = min K (nat C)"
proof -
  from assemble_views_Inr(2) [OF assms(2,3)] body_Inr
  obtain C' cam angles where C': "list_index caps i = Inr C'"
    and angles: "boxes_angles calc cams i (detection_group.boxes (dets ! i)) = Inr angles"
    and r: "recs ! i = \<lparr>box_features = slice_to C' (features (dets ! i)),
                roi_angles = slice_to C' angles,
                boxes = slice_to C' (detection_group.boxes (dets ! i)),
                masks = binarize (slice_to C' (detection_group.masks (dets ! i))),
                class_probs = slice_to C' (scores (dets ! i)),
                class_labels = slice_to C' (labels (dets ! i)),
                camera_info = cam,
                num_objects = length (slice_to C' (features (dets ! i)))\<rparr>"
    by blast
  from C' assms(5) have [simp]: "C' = C" by simp
  from boxes_angles_length [OF assms(1) angles] assms(4)
  have "length angles = K" by (simp add: has_detections_def)
  with assms(4,6) show ?thesis
    unfolding r by (simp add: has_detections_def length_slice_to length_binarize)
qed

theorem kept_count_is_min_witness:
  "shape_preserving linear_angles \<and>
   assemble_views linear_angles [2, 2] [cam90, cam90] [view3, view0] = Inr sample_records \<and>
   (0::nat) < length [view3, view0] \<and> has_detections 3 ([view3, view0] ! 0) \<and>
   list_index [2, 2] 0 = Inr (2::int) \<and> (0::int) \<le> 2 \<and>
   length (box_features (sample_records ! 0)) = min 3 (nat 2) \<and>
   length (roi_angles (sample_records ! 0)) = min 3 (nat 2) \<and>
   length (boxes (sample_records ! 0)) = min 3 (nat 2) \<and>
   length (masks (sample_records ! 0)) = min 3 (nat 2) \<and>
   length (class_probs (sample_records ! 0)) = min 3 (nat 2) \<and>
   length (class_labels (sample_records ! 0)) = min 3 (nat 2) \<and>
   num_objects (sample_records ! 0) = min 3 (nat 2)"
proof -
  have h1: "shape_preserving linear_angles" by (rule shape_preserving_linear_angles)
  have h2: "assemble_views linear_angles [2, 2] [cam90, cam90] [view3, view0] = Inr sample_records"
    by (rule sample_run)
  have h3: "(0::nat) < length [view3, view0]" by simp
  have h4: "has_detections 3 ([view3, view0] ! 0)" by (simp add: has_detections_def view3_def)
  have h5: "list_index [2, 2] 0 = Inr (2::int)" by (simp add: list_index_def)
  have h6: "(0::int) \<le> 2" by simp
  from kept_count_is_min [OF h1 h2 h3 h4 h5 h6] h1 h2 h3 h4 h5 h6 show ?thesis by blast
qed

section \<open>Truncation\<close>

text \<open>
  C2. Truncation keeps the order of the detector's output. For a view with \<open>K\<close>
  detections and a cap \<open>C\<close> with \<open>0 \<le> C < K\<close>, every per-object array of the record
  is the first \<open>C\<close> rows of the corresponding array of the detector (of the stacked
  angle array for the angles, of the thresholded masks for the masks), in the same order,
  and entry \<open>j\<close> of each array comes from detection \<open>j\<close>: for the angles, with
  \<^verbatim>\<open>calculate_angles\<close> working point by point, entry \<open>j\<close> is the angle pair of the
  centre of box \<open>j\<close>.
\<close>

theorem truncation_keeps_detector_order:
  assumes "elementwise calc point"
    and "assemble_views calc caps cams dets = Inr recs"
    and "i < length dets"
    and "has_detections K (dets ! i)"
    and "list_index caps i = Inr C" and "0 \<le> C" and "nat C < K"
  shows "box_features (recs ! i) = take (nat C) (features (dets ! i)) \<and>
         boxes (recs ! i) = take (nat C) (detection_group.boxes (dets ! i)) \<and>
         masks (recs ! i) = take (nat C) (binarize (detection_group.masks (dets ! i))) \<and>
         class_probs (recs ! i) = take (nat C) (scores (dets ! i)) \<and>
         class_labels (recs ! i) = take (nat C) (labels (dets ! i)) \<and>
         (let bs = detection_group.boxes (dets ! i);
              A = calc (fst (center_coords bs)) (snd (center_coords bs))
                    (h_view_angle (cams ! i)) (v_view_angle (cams ! i))
          in roi_angles (recs ! i) = take (nat C) (zip (fst A) (snd A)) \<and>
             (\<forall>j<nat C.
                box_features (recs ! i) ! j = features (dets ! i) ! j \<and>
                roi_angles (recs ! i) ! j = (fst A ! j, snd A ! j) \<and>
                roi_angles (recs ! i) ! j =
                  point (fst (box_center (bs ! j))) (snd (box_center (bs ! j)))
                    (h_view_angle (cams ! i)) (v_view_angle (cams ! i)) \<and>
                boxes (recs ! i) ! j = bs ! j \<and>
                masks (recs ! i) ! j =
                  map (map (\<lambda>v. v > 0.5)) (detection_group.masks (dets ! i) ! j) \<and>
                class_probs (recs ! i) ! j = scores (dets ! i) ! j \<and>
                class_labels (recs ! i) ! j = labels (dets ! i) ! j))"
proof -
  define bs where "bs = detection_group.boxes (dets ! i)"
  define A where "A = calc (fst (center_coords bs)) (snd (center_coords bs))
                    (h_view_angle (cams ! i)) (v_view_angle (cams ! i))"
  note shape = elementwise_shape_preserving [OF assms(1)]
  from body_of_run [OF assms(2,3)] assms(5)
  obtain angles where cam: "i < length cams"
    and angles: "boxes_angles calc cams i bs = Inr angles"
    and r: "recs ! i = \<lparr>box_features = slice_to C (features (dets ! i)),
                roi_angles = slice_to C angles,
                boxes = slice_to C bs,
                masks = binarize (slice_to C (detection_group.masks (dets ! i))),
                class_probs = slice_to C (scores (dets ! i)),
                class_labels = slice_to C (labels (dets ! i)),
                camera_info = cams ! i,
                num_objects = length (slice_to C (features (dets ! i)))\<rparr>"
    unfolding bs_def by auto
  from assms(4,7) have K: "length (features (dets ! i)) = K" "length bs = K"
    "length (scores (dets ! i)) = K" "length (labels (dets ! i)) = K"
    "length (detection_group.masks (dets ! i)) = K" and ne: "bs \<noteq> []"
    by (auto simp: has_detections_def bs_def)
  from boxes_angles_run [OF shape ne cam] angles
  have angles_eq: "angles = zip (fst A) (snd A)" by (simp add: A_def)
  have lenA: "length (fst A) = K" "length (snd A) = K"
    using calc_lengths [OF shape, of bs] K(2) by (simp_all add: A_def)
  have f1: "box_features (recs ! i) = take (nat C) (features (dets ! i))"
    and f2: "boxes (recs ! i) = take (nat C) bs"
    and f3: "masks (recs ! i) = take (nat C) (binarize (detection_group.masks (dets ! i)))"
    and f4: "class_probs (recs ! i) = take (nat C) (scores (dets ! i))"
    and f5: "class_labels (recs ! i) = take (nat C) (labels (dets ! i))"
    and f6: "roi_angles (recs ! i) = take (nat C) (zip (fst A) (snd A))"
    unfolding r using assms(6) by (simp_all add: slice_to_nonneg binarize_take angles_eq)
  have nth: "box_features (recs ! i) ! j = features (dets ! i) ! j \<and>
        roi_angles (recs ! i) ! j = (fst A ! j, snd A ! j) \<and>
        roi_angles (recs ! i) ! j =
          point (fst (box_center (bs ! j))) (snd (box_center (bs ! j)))
            (h_view_angle (cams ! i)) (v_view_angle (cams ! i)) \<and>
        boxes (recs ! i) ! j = bs ! j \<and>
        masks (recs ! i) ! j = map (map (\<lambda>v. v > 0.5)) (detection_group.masks (dets ! i) ! j) \<and>
        class_probs (recs ! i) ! j = scores (dets ! i) ! j \<and>
        class_labels (recs ! i) ! j = labels (dets ! i) ! j" if "j < nat C" for j
  proof -
    from that assms(7) have jK: "j < K" by simp
    have len: "length (fst (center_coords bs)) = length (snd (center_coords bs))"
      and jc: "j < length (fst (center_coords bs))"
      using jK K(2) by (simp_all add: length_center_coords)
    have row: "roi_angles (recs ! i) ! j = (fst A ! j, snd A ! j)"
      unfolding f6 using that jK lenA by simp
    have "(fst A ! j, snd A ! j) =
        point (fst (center_coords bs) ! j) (snd (center_coords bs) ! j)
          (h_view_angle (cams ! i)) (v_view_angle (cams ! i))"
      unfolding A_def by (rule elementwise_nth [OF assms(1) len jc])
    also have "\<dots> = point (fst (box_center (bs ! j))) (snd (box_center (bs ! j)))
          (h_view_angle (cams ! i)) (v_view_angle (cams ! i))"
      using jK K(2) by (simp add: center_coords_nth)
    finally have pt: "(fst A ! j, snd A ! j) =
        point (fst (box_center (bs ! j))) (snd (box_center (bs ! j)))
          (h_view_angle (cams ! i)) (v_view_angle (cams ! i))" .
    have rest: "box_features (recs ! i) ! j = features (dets ! i) ! j \<and>
        boxes (recs ! i) ! j = bs ! j \<and>
        masks (recs ! i) ! j = map (map (\<lambda>v. v > 0.5)) (detection_group.masks (dets ! i) ! j) \<and>
        class_probs (recs ! i) ! j = scores (dets ! i) ! j \<and>
        class_labels (recs ! i) ! j = labels (dets ! i) ! j"
      unfolding f1 f2 f3 f4 f5 using that jK K by (simp add: binarize_nth)
    from row pt rest show ?thesis by simp
  qed
  from f1 f2 f3 f4 f5 f6 nth show ?thesis
    unfolding Let_def bs_def [symmetric] A_def [symmetric] by blast
qed

theorem truncation_keeps_detector_order_witness:
  "elementwise linear_angles linear_point \<and>
   assemble_views linear_angles [2, 2] [cam90, cam90] [view3, view0] = Inr sample_records \<and>
   (0::nat) < length [view3, view0] \<and> has_detections 3 ([view3, view0] ! 0) \<and>
   list_index [2, 2] 0 = Inr (2::int) \<and> (0::int) \<le> 2 \<and> nat 2 < (3::nat) \<and>
   box_features (sample_records ! 0) = take (nat 2) (features ([view3, view0] ! 0)) \<and>
   boxes (sample_records ! 0) = take (nat 2) (detection_group.boxes ([view3, view0] ! 0)) \<and>
   masks (sample_records ! 0) =
     take (nat 2) (binarize (detection_group.masks ([view3, view0] ! 0))) \<and>
   class_probs (sample_records ! 0) = take (nat 2) (scores ([view3, view0] ! 0)) \<and>
   class_labels (sample_records ! 0) = take (nat 2) (labels ([view3, view0] ! 0)) \<and>
   box_features (sample_records ! 0) ! 1 = features ([view3, view0] ! 0) ! 1 \<and>
   roi_angles (sample_records ! 0) ! 1 =
     linear_point (fst (box_center (detection_group.boxes ([view3, view0] ! 0) ! 1)))
       (snd (box_center (detection_group.boxes ([view3, view0] ! 0) ! 1)))
       (h_view_angle ([cam90, cam90] ! 0)) (v_view_angle ([cam90, cam90] ! 0)) \<and>
   boxes (sample_records ! 0) ! 1 = detection_group.boxes ([view3, view0] ! 0) ! 1 \<and>
   masks (sample_records ! 0) ! 1 =
     map (map (\<lambda>v. v > 0.5)) (detection_group.masks ([view3, view0] ! 0) ! 1) \<and>
   class_probs (sample_records ! 0) ! 1 = scores ([view3, view0] ! 0) ! 1 \<and>
   class_labels (sample_records ! 0) ! 1 = labels ([view3, view0] ! 0) ! 1"
proof -
  have h6: "(0::int) \<le> 2" and h7: "nat 2 < (3::nat)" by simp_all
  have j: "(1::nat) < nat 2" by simp
  note inst = truncation_keeps_detector_order [OF elementwise_linear_angles sample_run
    sample_hyps(1) sample_hyps(3) sample_hyps(5) h6 h7]
  from inst have arrays:
    "box_features (sample_records ! 0) = take (nat 2) (features ([view3, view0] ! 0))"
    "boxes (sample_records ! 0) = take (nat 2) (detection_group.boxes ([view3, view0] ! 0))"
    "masks (sample_records ! 0) =
       take (nat 2) (binarize (detection_group.masks ([view3, view0] ! 0)))"
    "class_probs (sample_records ! 0) = take (nat 2) (scores ([view3, view0] ! 0))"
    "class_labels (sample_records ! 0) = take (nat 2) (labels ([view3, view0] ! 0))"
    by blast+
  from inst j have rows:
    "box_features (sample_records ! 0) ! 1 = features ([view3, view0] ! 0) ! 1"
    "roi_angles (sample_records ! 0) ! 1 =
       linear_point (fst (box_center (detection_group.boxes ([view3, view0] ! 0) ! 1)))
         (snd (box_center (detection_group.boxes ([view3, view0] ! 0) ! 1)))
         (h_view_angle ([cam90, cam90] ! 0)) (v_view_angle ([cam90, cam90] ! 0))"
    "boxes (sample_records ! 0) ! 1 = detection_group.boxes ([view3, view0] ! 0) ! 1"
    "masks (sample_records ! 0) ! 1 =
       map (map (\<lambda>v. v > 0.5)) (detection_group.masks ([view3, view0] ! 0) ! 1)"
    "class_probs (sample_records ! 0) ! 1 = scores ([view3, view0] ! 0) ! 1"
    "class_labels (sample_records ! 0) ! 1 = labels ([view3, view0] ! 0) ! 1"
    unfolding Let_def by blast+
  from arrays rows elementwise_linear_angles sample_run sample_hyps(1) sample_hyps(3)
    sample_hyps(5) h6 h7
  show ?thesis by blast
qed

text \<open>
  C10. The boxes of the record are rows of the detector's boxes, unchanged and in order:
  a prefix of the detector's array for every cap, and for a cap \<open>C \<ge> 0\<close> its first
  \<open>min K C\<close> rows, where \<open>K\<close> is the number of boxes of the view.
\<close>

theorem boxes_pass_through:
  assumes "assemble_views calc caps cams dets = Inr recs"
    and "i < length dets"
    and "list_index caps i = Inr C"
  shows "boxes (recs ! i) =
           take (length (boxes (recs ! i))) (detection_group.boxes (dets ! i)) \<and>
         (0 \<le> C \<longrightarrow>
            boxes (recs ! i) =
              take (min (length (detection_group.boxes (dets ! i))) (nat C))
                (detection_group.boxes (dets ! i)))"
proof -
  from body_of_run [OF assms(1,2)] assms(3)
  have r: "boxes (recs ! i) = slice_to C (detection_group.boxes (dets ! i))" by auto
  have "boxes (recs ! i) = take (length (boxes (recs ! i))) (detection_group.boxes (dets ! i))"
    unfolding r by (rule slice_to_take)
  moreover have "boxes (recs ! i) =
      take (min (length (detection_group.boxes (dets ! i))) (nat C))
        (detection_group.boxes (dets ! i))" if "0 \<le> C"
    unfolding r using that by (simp add: slice_to_nonneg min_def)
  ultimately show ?thesis by blast
qed

theorem boxes_pass_through_witness:
  "assemble_views linear_angles [2, 2] [cam90, cam90] [view3, view0] = Inr sample_records \<and>
   (0::nat) < length [view3, view0] \<and> list_index [2, 2] 0 = Inr (2::int) \<and> (0::int) \<le> 2 \<and>
   boxes (sample_records ! 0) =
     take (length (boxes (sample_records ! 0))) (detection_group.boxes ([view3, view0] ! 0)) \<and>
   boxes (sample_records ! 0) =
     take (min (length (detection_group.boxes ([view3, view0] ! 0))) (nat 2))
       (detection_group.boxes ([view3, view0] ! 0))"
proof -
  have h4: "(0::int) \<le> 2" by simp
  from boxes_pass_through [OF sample_run sample_hyps(1) sample_hyps(5)]
    sample_run sample_hyps(1) sample_hyps(5) h4
  show ?thesis by blast
qed

section \<open>Box centres and angles\<close>

text \<open>
  C3. The centres are not always the floor of the exact midpoint. The coordinates are
  float32 numbers and their sum is rounded to float32 before the floor division: for the
  box with \<open>x1 = y1 = 100.5\<close> and \<open>x2 = y2 = 199.5 - 2 ^ - 16\<close> the sum \<open>300 - 2 ^ - 16\<close>
  rounds to 300 and the centre is \<open>(150, 150)\<close>, where the floor of the exact midpoint
  is 149; the call on a view with this box returns the angles of the centre
  \<open>(150, 150)\<close>.
\<close>

theorem exact_midpoint_floor_counterexample:
  "center_coords [(201 / 2, 201 / 2, 13074431 / 65536, 13074431 / 65536)] =
     ([Finite 150], [Finite 150]) \<and>
   \<lfloor>(201 / 2 + 13074431 / 65536) / 2 :: real\<rfloor> = 149 \<and>
   assemble_views linear_angles [2] [cam90] [rounding_view] =
     Inr [\<lparr>box_features = [[1, 2]],
           roi_angles = [(0, 0)],
           boxes = [(201 / 2, 201 / 2, 13074431 / 65536, 13074431 / 65536)],
           masks = [[[True]]],
           class_probs = [1 / 2],
           class_labels = [7],
           camera_info = cam90,
           num_objects = 1\<rparr>] \<and>
   linear_point (Finite 149) (Finite 149) (h_view_angle cam90) (v_view_angle cam90) =
     (- (3 / 10), - (3 / 10))"
proof -
  have cc: "center_coords [(201 / 2, 201 / 2, 13074431 / 65536, 13074431 / 65536)] =
     ([Finite 150], [Finite 150])"
    by (simp add: center_coords_map box_center_samples)
  have fl: "\<lfloor>(201 / 2 + 13074431 / 65536) / 2 :: real\<rfloor> = 149" by simp
  note run = rounding_view_run
  have pt: "linear_point (Finite 149) (Finite 149) (h_view_angle cam90) (v_view_angle cam90) =
     (- (3 / 10), - (3 / 10))"
    by (simp add: linear_point_def linear_angle_def cam90_def)
  from cc fl run pt show ?thesis by blast
qed

text \<open>
  C3, as the code has it. For every view of a returning call with at least one box, the
  centre arrays handed to \<^verbatim>\<open>calculate_angles\<close>, whose stacked result the record
  carries truncated, hold for every box the floor of half the float32 sum of its
  coordinates: \<open>\<lfloor>s / 2\<rfloor>\<close> with \<open>s\<close> the sum \<open>x1 + x2\<close> (or \<open>y1 + y2\<close>) rounded to float32;
  a sum that overflows gives a centre that is not finite. Where the exact sum is a
  float32 number the centre is \<open>\<lfloor>(x1 + x2) / 2\<rfloor>\<close>. The division is the floor division and
  not the midpoint: the box \<open>(1, 1, 2, 2)\<close> has the centre \<open>(1, 1)\<close>, not \<open>(1.5, 1.5)\<close>.
\<close>

theorem box_centers_floor_of_float32_sum:
  assumes "shape_preserving calc"
    and "assemble_views calc caps cams dets = Inr recs"
    and "i < length dets"
    and "list_index caps i = Inr C"
    and "detection_group.boxes (dets ! i) \<noteq> []"
  shows "(let bs = detection_group.boxes (dets ! i);
              cx = map (\<lambda>(x1, y1, x2, y2).
                     case round_f32 (x1 + x2) of
                       Finite s \<Rightarrow> Finite (of_int \<lfloor>s / 2\<rfloor>) | NonFinite \<Rightarrow> NonFinite) bs;
              cy = map (\<lambda>(x1, y1, x2, y2).
                     case round_f32 (y1 + y2) of
                       Finite s \<Rightarrow> Finite (of_int \<lfloor>s / 2\<rfloor>) | NonFinite \<Rightarrow> NonFinite) bs;
              A = calc cx cy (h_view_angle (cams ! i)) (v_view_angle (cams ! i))
          in center_coords bs = (cx, cy) \<and>
             boxes_angles calc cams i bs = Inr (zip (fst A) (snd A)) \<and>
             roi_angles (recs ! i) = slice_to C (zip (fst A) (snd A)) \<and>
             (\<forall>j<length bs.
                case bs ! j of (x1, y1, x2, y2) \<Rightarrow>
                  (round_f32 (x1 + x2) = Finite (x1 + x2) \<longrightarrow>
                     cx ! j = Finite (of_int \<lfloor>(x1 + x2) / 2\<rfloor>)) \<and>
                  (round_f32 (y1 + y2) = Finite (y1 + y2) \<longrightarrow>
                     cy ! j = Finite (of_int \<lfloor>(y1 + y2) / 2\<rfloor>)))) \<and>
         center_coords [(1, 1, 2, 2)] = ([Finite 1], [Finite 1]) \<and>
         center_coords [(1, 1, 2, 2)] \<noteq> ([Finite (3 / 2)], [Finite (3 / 2)])"
proof -
  define bs where "bs = detection_group.boxes (dets ! i)"
  define cx where "cx = map (\<lambda>(x1, y1, x2, y2).
                     case round_f32 (x1 + x2) of
                       Finite s \<Rightarrow> Finite (of_int \<lfloor>s / 2\<rfloor>) | NonFinite \<Rightarrow> NonFinite) bs"
  define cy where "cy = map (\<lambda>(x1, y1, x2, y2).
                     case round_f32 (y1 + y2) of
                       Finite s \<Rightarrow> Finite (of_int \<lfloor>s / 2\<rfloor>) | NonFinite \<Rightarrow> NonFinite) bs"
  define A where "A = calc cx cy (h_view_angle (cams ! i)) (v_view_angle (cams ! i))"
  have cc: "center_coords bs = (cx, cy)"
    unfolding center_coords_map cx_def cy_def
    by (auto simp: box_center_formula)
  from body_of_run [OF assms(2,3)] assms(4)
  obtain angles where cam: "i < length cams"
    and angles: "boxes_angles calc cams i bs = Inr angles"
    and roi: "roi_angles (recs ! i) = slice_to C angles"
    unfolding bs_def by auto
  from assms(5) have ne: "bs \<noteq> []" by (simp add: bs_def)
  from boxes_angles_run [OF assms(1) ne cam]
  have run: "boxes_angles calc cams i bs = Inr (zip (fst A) (snd A))"
    by (simp add: A_def cc)
  with angles roi have roi': "roi_angles (recs ! i) = slice_to C (zip (fst A) (snd A))"
    by simp
  have exact: "case bs ! j of (x1, y1, x2, y2) \<Rightarrow>
        (round_f32 (x1 + x2) = Finite (x1 + x2) \<longrightarrow>
           cx ! j = Finite (of_int \<lfloor>(x1 + x2) / 2\<rfloor>)) \<and>
        (round_f32 (y1 + y2) = Finite (y1 + y2) \<longrightarrow>
           cy ! j = Finite (of_int \<lfloor>(y1 + y2) / 2\<rfloor>))" if "j < length bs" for j
    using that by (cases "bs ! j") (simp add: cx_def cy_def)
  have one: "center_coords [(1, 1, 2, 2)] = ([Finite 1], [Finite 1])"
    by (simp add: center_coords_map box_center_samples)
  then have two: "center_coords [(1, 1, 2, 2)] \<noteq> ([Finite (3 / 2)], [Finite (3 / 2)])"
    by simp
  from cc run roi' exact one two show ?thesis
    unfolding Let_def bs_def [symmetric] cx_def [symmetric] cy_def [symmetric]
      A_def [symmetric] by blast
qed

theorem box_centers_floor_of_float32_sum_witness:
  "shape_preserving linear_angles \<and>
   assemble_views linear_angles [2] [cam90] [rounding_view] =
     Inr [\<lparr>box_features = [[1, 2]],
           roi_angles = [(0, 0)],
           boxes = [(201 / 2, 201 / 2, 13074431 / 65536, 13074431 / 65536)],
           masks = [[[True]]],
           class_probs = [1 / 2],
           class_labels = [7],
           camera_info = cam90,
           num_objects = 1\<rparr>] \<and>
   (0::nat) < length [rounding_view] \<and> list_index [2] 0 = Inr (2::int) \<and>
   detection_group.boxes ([rounding_view] ! 0) \<noteq> [] \<and>
   center_coords (detection_group.boxes ([rounding_view] ! 0)) = ([Finite 150], [Finite 150]) \<and>
   boxes_angles linear_angles [cam90] 0 (detection_group.boxes ([rounding_view] ! 0)) =
     Inr [(0, 0)]"
proof -
  have run: "assemble_views linear_angles [2] [cam90] [rounding_view] =
     Inr [\<lparr>box_features = [[1, 2]],
           roi_angles = [(0, 0)],
           boxes = [(201 / 2, 201 / 2, 13074431 / 65536, 13074431 / 65536)],
           masks = [[[True]]],
           class_probs = [1 / 2],
           class_labels = [7],
           camera_info = cam90,
           num_objects = 1\<rparr>]"
    by (rule rounding_view_run)
  have h3: "(0::nat) < length [rounding_view]" by simp
  have h4: "list_index [2] 0 = Inr (2::int)" by (simp add: list_index_def)
  have h5: "detection_group.boxes ([rounding_view] ! 0) \<noteq> []"
    by (simp add: rounding_view_def)
  have bs: "detection_group.boxes ([rounding_view] ! 0) =
      [(201 / 2, 201 / 2, 13074431 / 65536, 13074431 / 65536)]"
    by (simp add: rounding_view_def)
  have s: "round_f32 (19660799 / 65536) = Finite 300"
    using round_f32_samples(6) by simp
  note inst = box_centers_floor_of_float32_sum [OF shape_preserving_linear_angles run h3 h4 h5]
  from inst have "center_coords (detection_group.boxes ([rounding_view] ! 0)) =
      ([Finite 150], [Finite 150])"
    and "boxes_angles linear_angles [cam90] 0 (detection_group.boxes ([rounding_view] ! 0)) =
      Inr [(0, 0)]"
    unfolding Let_def bs
    by (simp_all add: s linear_angles_def linear_angle_def cam90_def)
  with shape_preserving_linear_angles run h3 h4 h5 show ?thesis by blast
qed

text \<open>
  C8. For a view with \<open>N > 0\<close> boxes the angle array, before truncation, is the result
  of \<^verbatim>\<open>calculate_angles\<close> on the \<open>N\<close> box centres of lines 176 to 177 and the two
  view angles of the view's camera, stacked into \<open>N\<close> rows of two columns: the horizontal
  angle in column 0, the vertical angle in column 1; the record carries its truncation.
  For a view with no boxes the angle array has no rows.
\<close>

theorem roi_angles_stacked:
  assumes "shape_preserving calc"
    and "assemble_views calc caps cams dets = Inr recs"
    and "i < length dets"
    and "list_index caps i = Inr C"
  shows "(let bs = detection_group.boxes (dets ! i);
              A = calc (fst (center_coords bs)) (snd (center_coords bs))
                       (h_view_angle (cams ! i)) (v_view_angle (cams ! i))
          in (0 < length bs \<longrightarrow>
                length (fst (center_coords bs)) = length bs \<and>
                length (snd (center_coords bs)) = length bs \<and>
                boxes_angles calc cams i bs = Inr (zip (fst A) (snd A)) \<and>
                length (zip (fst A) (snd A)) = length bs \<and>
                map fst (zip (fst A) (snd A)) = fst A \<and>
                map snd (zip (fst A) (snd A)) = snd A \<and>
                roi_angles (recs ! i) = slice_to C (zip (fst A) (snd A))) \<and>
             (length bs = 0 \<longrightarrow>
                boxes_angles calc cams i bs = Inr [] \<and> roi_angles (recs ! i) = []))"
proof -
  define bs where "bs = detection_group.boxes (dets ! i)"
  define A where "A = calc (fst (center_coords bs)) (snd (center_coords bs))
                       (h_view_angle (cams ! i)) (v_view_angle (cams ! i))"
  from body_of_run [OF assms(2,3)] assms(4)
  obtain angles where cam: "i < length cams"
    and angles: "boxes_angles calc cams i bs = Inr angles"
    and roi: "roi_angles (recs ! i) = slice_to C angles"
    unfolding bs_def by auto
  have lenA: "length (fst A) = length bs" "length (snd A) = length bs"
    unfolding A_def using calc_lengths [OF assms(1)] by simp_all
  have pos: "length (fst (center_coords bs)) = length bs \<and>
      length (snd (center_coords bs)) = length bs \<and>
      boxes_angles calc cams i bs = Inr (zip (fst A) (snd A)) \<and>
      length (zip (fst A) (snd A)) = length bs \<and>
      map fst (zip (fst A) (snd A)) = fst A \<and>
      map snd (zip (fst A) (snd A)) = snd A \<and>
      roi_angles (recs ! i) = slice_to C (zip (fst A) (snd A))" if "0 < length bs"
  proof -
    from that have ne: "bs \<noteq> []" by auto
    from boxes_angles_run [OF assms(1) ne cam]
    have run: "boxes_angles calc cams i bs = Inr (zip (fst A) (snd A))" by (simp add: A_def)
    from run angles have eq: "angles = zip (fst A) (snd A)" by simp
    have z: "length (zip (fst A) (snd A)) = length bs"
      "map fst (zip (fst A) (snd A)) = fst A" "map snd (zip (fst A) (snd A)) = snd A"
      using lenA by simp_all
    from run z roi show ?thesis unfolding eq by (simp add: length_center_coords)
  qed
  have zero: "boxes_angles calc cams i bs = Inr [] \<and> roi_angles (recs ! i) = []"
    if "length bs = 0"
    using that angles roi by (simp add: boxes_angles_Nil slice_to_Nil)
  from pos zero show ?thesis
    unfolding Let_def bs_def [symmetric] A_def [symmetric] by blast
qed

theorem roi_angles_stacked_witness:
  "shape_preserving linear_angles \<and>
   assemble_views linear_angles [2, 2] [cam90, cam90] [view3, view0] = Inr sample_records \<and>
   (0::nat) < length [view3, view0] \<and> list_index [2, 2] 0 = Inr (2::int) \<and>
   0 < length (detection_group.boxes ([view3, view0] ! 0)) \<and>
   center_coords (detection_group.boxes ([view3, view0] ! 0)) =
     ([Finite 1, Finite 150, Finite 20], [Finite 1, Finite 150, Finite 30]) \<and>
   boxes_angles linear_angles [cam90, cam90] 0 (detection_group.boxes ([view3, view0] ! 0)) =
     Inr [(- (447 / 10), - (447 / 10)), (0, 0), (- 39, - 36)] \<and>
   roi_angles (sample_records ! 0) =
     slice_to 2 [(- (447 / 10), - (447 / 10)), (0, 0), (- 39, - 36)]"
proof -
  have pos: "0 < length (detection_group.boxes ([view3, view0] ! 0))"
    by (simp add: view3_def)
  have cc: "center_coords (detection_group.boxes ([view3, view0] ! 0)) =
     ([Finite 1, Finite 150, Finite 20], [Finite 1, Finite 150, Finite 30])"
    using center_coords_view3 by simp
  have A: "zip (fst (linear_angles
              (fst (center_coords (detection_group.boxes ([view3, view0] ! 0))))
              (snd (center_coords (detection_group.boxes ([view3, view0] ! 0))))
              (h_view_angle ([cam90, cam90] ! 0)) (v_view_angle ([cam90, cam90] ! 0))))
            (snd (linear_angles
              (fst (center_coords (detection_group.boxes ([view3, view0] ! 0))))
              (snd (center_coords (detection_group.boxes ([view3, view0] ! 0))))
              (h_view_angle ([cam90, cam90] ! 0)) (v_view_angle ([cam90, cam90] ! 0)))) =
        [(- (447 / 10), - (447 / 10)), (0, 0), (- 39, - 36)]"
    unfolding cc by (simp add: cam90_def linear_angles_def linear_angle_def)
  from roi_angles_stacked [OF shape_preserving_linear_angles sample_run sample_hyps(1)
      sample_hyps(5)] pos
  have "boxes_angles linear_angles [cam90, cam90] 0
          (detection_group.boxes ([view3, view0] ! 0)) =
          Inr [(- (447 / 10), - (447 / 10)), (0, 0), (- 39, - 36)]"
    and "roi_angles (sample_records ! 0) =
          slice_to 2 [(- (447 / 10), - (447 / 10)), (0, 0), (- 39, - 36)]"
    unfolding Let_def A by simp_all
  with shape_preserving_linear_angles sample_run sample_hyps(1) sample_hyps(5) pos cc
  show ?thesis by blast
qed

section \<open>Masks\<close>

text \<open>
  C4. Every pixel of every kept mask is true exactly when its raw value is greater
  than 0.5; a raw value of 0.5 gives false.
\<close>

theorem mask_threshold:
  assumes "assemble_views calc caps cams dets = Inr recs"
    and "i < length dets"
    and "j < length (masks (recs ! i))"
    and "r < length (detection_group.masks (dets ! i) ! j)"
    and "c < length (detection_group.masks (dets ! i) ! j ! r)"
  shows "(masks (recs ! i) ! j ! r ! c \<longleftrightarrow> detection_group.masks (dets ! i) ! j ! r ! c > 0.5) \<and>
         (detection_group.masks (dets ! i) ! j ! r ! c = 0.5 \<longrightarrow> \<not> masks (recs ! i) ! j ! r ! c)"
proof -
  from body_of_run [OF assms(1,2)]
  obtain C where m: "masks (recs ! i) = binarize (slice_to C (detection_group.masks (dets ! i)))"
    by auto
  from assms(3) have j: "j < length (slice_to C (detection_group.masks (dets ! i)))"
    unfolding m by (simp add: length_binarize)
  have "masks (recs ! i) ! j =
      map (map (\<lambda>v. v > 0.5)) (detection_group.masks (dets ! i) ! j)"
    unfolding m binarize_nth [OF j] slice_to_nth [OF j] ..
  with assms(4,5) show ?thesis by simp
qed

theorem mask_threshold_witness:
  "assemble_views linear_angles [2, 2] [cam90, cam90] [view3, view0] = Inr sample_records \<and>
   (0::nat) < length [view3, view0] \<and>
   (0::nat) < length (masks (sample_records ! 0)) \<and>
   (0::nat) < length (detection_group.masks ([view3, view0] ! 0) ! 0) \<and>
   (0::nat) < length (detection_group.masks ([view3, view0] ! 0) ! 0 ! 0) \<and>
   detection_group.masks ([view3, view0] ! 0) ! 0 ! 0 ! 0 = 0.5 \<and>
   (masks (sample_records ! 0) ! 0 ! 0 ! 0 \<longleftrightarrow>
      detection_group.masks ([view3, view0] ! 0) ! 0 ! 0 ! 0 > 0.5) \<and>
   \<not> masks (sample_records ! 0) ! 0 ! 0 ! 0"
proof -
  have h3: "(0::nat) < length (masks (sample_records ! 0))"
    by (simp add: sample_records_def)
  have h4: "(0::nat) < length (detection_group.masks ([view3, view0] ! 0) ! 0)"
    and h5: "(0::nat) < length (detection_group.masks ([view3, view0] ! 0) ! 0 ! 0)"
    and v: "detection_group.masks ([view3, view0] ! 0) ! 0 ! 0 ! 0 = 0.5"
    by (simp_all add: view3_def)
  from mask_threshold [OF sample_run sample_hyps(1) h3 h4 h5] sample_run sample_hyps(1) h3 h4 h5 v
  show ?thesis by blast
qed

section \<open>Views without detections\<close>

text \<open>
  C5. For a view with no detections, whose cap and camera exist, the iteration returns a
  record: all six per-object arrays are empty and \<^verbatim>\<open>num_objects\<close> is 0; this is
  the record the call returns for the view.
\<close>

theorem empty_view_record:
  assumes "has_detections 0 (dets ! i)" and "i < length caps" and "i < length cams"
  shows "get_visual_features_body calc caps cams dets i =
           Inr \<lparr>box_features = [], roi_angles = [], boxes = [], masks = [],
                class_probs = [], class_labels = [], camera_info = cams ! i,
                num_objects = 0\<rparr> \<and>
         (\<forall>recs. assemble_views calc caps cams dets = Inr recs \<longrightarrow> i < length dets \<longrightarrow>
            i < length recs \<and>
            recs ! i = \<lparr>box_features = [], roi_angles = [], boxes = [], masks = [],
                class_probs = [], class_labels = [], camera_info = cams ! i,
                num_objects = 0\<rparr>)"
proof -
  from assms have body: "get_visual_features_body calc caps cams dets i =
           Inr \<lparr>box_features = [], roi_angles = [], boxes = [], masks = [],
                class_probs = [], class_labels = [], camera_info = cams ! i,
                num_objects = 0\<rparr>"
    by (simp add: get_visual_features_body_def has_detections_def list_index_def
          boxes_angles_Nil slice_to_Nil binarize_def)
  moreover have "i < length recs \<and>
            recs ! i = \<lparr>box_features = [], roi_angles = [], boxes = [], masks = [],
                class_probs = [], class_labels = [], camera_info = cams ! i,
                num_objects = 0\<rparr>"
    if "assemble_views calc caps cams dets = Inr recs" "i < length dets" for recs
    using assemble_views_Inr [OF that(1)] that(2) body by simp
  ultimately show ?thesis by blast
qed

theorem empty_view_record_witness:
  "has_detections 0 ([view3, view0] ! 1) \<and> (1::nat) < length [2, 2 :: int] \<and>
   (1::nat) < length [cam90, cam90] \<and>
   get_visual_features_body linear_angles [2, 2] [cam90, cam90] [view3, view0] 1 =
     Inr \<lparr>box_features = [], roi_angles = [], boxes = [], masks = [],
          class_probs = [], class_labels = [], camera_info = [cam90, cam90] ! 1,
          num_objects = 0\<rparr> \<and>
   assemble_views linear_angles [2, 2] [cam90, cam90] [view3, view0] = Inr sample_records \<and>
   (1::nat) < length [view3, view0] \<and> 1 < length sample_records \<and>
   sample_records ! 1 =
     \<lparr>box_features = [], roi_angles = [], boxes = [], masks = [],
      class_probs = [], class_labels = [], camera_info = [cam90, cam90] ! 1,
      num_objects = 0\<rparr>"
proof -
  have h2: "(1::nat) < length [2, 2 :: int]" and h3: "(1::nat) < length [cam90, cam90]"
    by simp_all
  from empty_view_record [OF sample_hyps(4) h2 h3, of linear_angles]
    sample_hyps(4) h2 h3 sample_run sample_hyps(2)
  show ?thesis by blast
qed

section \<open>Arrays of different lengths\<close>

text \<open>
  C6. The code has no check of the shapes. On the view above, whose arrays disagree in
  their number of rows, the call returns a record and raises nothing.
\<close>

theorem mismatch_raises_nothing_counterexample:
  "\<not> has_detections (length (detection_group.boxes mismatched_view)) mismatched_view \<and>
   assemble_views linear_angles [2] [cam90] [mismatched_view] =
     Inr [\<lparr>box_features = [[1, 2], [3, 4]],
           roi_angles = [(- (447 / 10), - (447 / 10))],
           boxes = [(1, 1, 2, 2)],
           masks = [[[False, True]]],
           class_probs = [2 / 5, 9 / 10],
           class_labels = [7],
           camera_info = cam90,
           num_objects = 2\<rparr>]"
proof -
  have idx: "[0..<length [mismatched_view]] = [0]" by simp
  have cc: "center_coords (detection_group.boxes mismatched_view) = ([Finite 1], [Finite 1])"
    by (simp add: center_coords_map mismatched_view_def box_center_samples)
  have body: "get_visual_features_body linear_angles [2] [cam90] [mismatched_view] 0 =
     Inr \<lparr>box_features = [[1, 2], [3, 4]],
           roi_angles = [(- (447 / 10), - (447 / 10))],
           boxes = [(1, 1, 2, 2)],
           masks = [[[False, True]]],
           class_probs = [2 / 5, 9 / 10],
           class_labels = [7],
           camera_info = cam90,
           num_objects = 2\<rparr>"
    by (simp add: get_visual_features_body_def boxes_angles_def list_index_def cc
         Let_def linear_angles_def linear_angle_def np_stack_def slice_to_def binarize_def)
       (simp add: mismatched_view_def cam90_def)
  have "\<not> has_detections (length (detection_group.boxes mismatched_view)) mismatched_view"
    by (simp add: has_detections_def mismatched_view_def)
  moreover have "assemble_views linear_angles [2] [cam90] [mismatched_view] =
     Inr [\<lparr>box_features = [[1, 2], [3, 4]],
           roi_angles = [(- (447 / 10), - (447 / 10))],
           boxes = [(1, 1, 2, 2)],
           masks = [[[False, True]]],
           class_probs = [2 / 5, 9 / 10],
           class_labels = [7],
           camera_info = cam90,
           num_objects = 2\<rparr>]"
    unfolding assemble_views_def idx using body by simp
  ultimately show ?thesis by blast
qed

text \<open>
  C6, as the code has it. Whatever the lengths of the detector's arrays, when every view
  has a cap and a camera the call returns one record per view, and for a cap \<open>C \<ge> 0\<close>
  each array of the record is cut to \<open>min\<close> of its own length and \<open>C\<close>, independently
  of the others; \<^verbatim>\<open>num_objects\<close> is the number of kept feature rows.
\<close>

theorem arrays_truncated_independently:
  assumes "shape_preserving calc"
    and "length dets \<le> length caps" and "length dets \<le> length cams"
  shows "\<exists>recs. assemble_views calc caps cams dets = Inr recs \<and> length recs = length dets \<and>
     (\<forall>i<length dets. 0 \<le> caps ! i \<longrightarrow>
        length (box_features (recs ! i)) = min (length (features (dets ! i))) (nat (caps ! i)) \<and>
        length (roi_angles (recs ! i)) =
          min (length (detection_group.boxes (dets ! i))) (nat (caps ! i)) \<and>
        length (boxes (recs ! i)) =
          min (length (detection_group.boxes (dets ! i))) (nat (caps ! i)) \<and>
        length (masks (recs ! i)) =
          min (length (detection_group.masks (dets ! i))) (nat (caps ! i)) \<and>
        length (class_probs (recs ! i)) = min (length (scores (dets ! i))) (nat (caps ! i)) \<and>
        length (class_labels (recs ! i)) = min (length (labels (dets ! i))) (nat (caps ! i)) \<and>
        num_objects (recs ! i) = min (length (features (dets ! i))) (nat (caps ! i)))"
proof -
  have "\<exists>r. get_visual_features_body calc caps cams dets i = Inr r" if "i < length dets" for i
    using body_total [OF assms(1), of i caps cams dets] that assms(2,3) by auto
  from assemble_views_total [OF this]
  obtain recs where run: "assemble_views calc caps cams dets = Inr recs" by blast
  have "length (box_features (recs ! i)) = min (length (features (dets ! i))) (nat (caps ! i)) \<and>
        length (roi_angles (recs ! i)) =
          min (length (detection_group.boxes (dets ! i))) (nat (caps ! i)) \<and>
        length (boxes (recs ! i)) =
          min (length (detection_group.boxes (dets ! i))) (nat (caps ! i)) \<and>
        length (masks (recs ! i)) =
          min (length (detection_group.masks (dets ! i))) (nat (caps ! i)) \<and>
        length (class_probs (recs ! i)) = min (length (scores (dets ! i))) (nat (caps ! i)) \<and>
        length (class_labels (recs ! i)) = min (length (labels (dets ! i))) (nat (caps ! i)) \<and>
        num_objects (recs ! i) = min (length (features (dets ! i))) (nat (caps ! i))"
    if i: "i < length dets" and C: "0 \<le> caps ! i" for i
  proof -
    from i assms(2,3) have "i < length caps" "i < length cams" by simp_all
    from body_total [OF assms(1) this, of dets] assemble_views_Inr(2) [OF run i]
    obtain angles where "length angles = length (detection_group.boxes (dets ! i))"
      and r: "recs ! i = \<lparr>box_features = slice_to (caps ! i) (features (dets ! i)),
            roi_angles = slice_to (caps ! i) angles,
            boxes = slice_to (caps ! i) (detection_group.boxes (dets ! i)),
            masks = binarize (slice_to (caps ! i) (detection_group.masks (dets ! i))),
            class_probs = slice_to (caps ! i) (scores (dets ! i)),
            class_labels = slice_to (caps ! i) (labels (dets ! i)),
            camera_info = cams ! i,
            num_objects = length (slice_to (caps ! i) (features (dets ! i)))\<rparr>"
      by auto
    then show ?thesis
      unfolding r using C by (simp add: length_slice_to length_binarize)
  qed
  with run assemble_views_Inr(1) [OF run] show ?thesis by blast
qed

theorem arrays_truncated_independently_witness:
  "shape_preserving linear_angles \<and>
   length [mismatched_view] \<le> length [2 :: int] \<and> length [mismatched_view] \<le> length [cam90] \<and>
   (\<exists>recs. assemble_views linear_angles [2] [cam90] [mismatched_view] = Inr recs \<and>
      length recs = 1 \<and>
      length (box_features (recs ! 0)) = 2 \<and> length (roi_angles (recs ! 0)) = 1 \<and>
      length (boxes (recs ! 0)) = 1 \<and> length (masks (recs ! 0)) = 1 \<and>
      length (class_probs (recs ! 0)) = 2 \<and> length (class_labels (recs ! 0)) = 1 \<and>
      num_objects (recs ! 0) = 2)"
proof -
  have h2: "length [mismatched_view] \<le> length [2 :: int]"
    and h3: "length [mismatched_view] \<le> length [cam90]" by simp_all
  from arrays_truncated_independently [OF shape_preserving_linear_angles h2 h3]
  obtain recs where "assemble_views linear_angles [2] [cam90] [mismatched_view] = Inr recs"
    and "length recs = length [mismatched_view]"
    and "\<forall>i<length [mismatched_view]. 0 \<le> [2 :: int] ! i \<longrightarrow>
        length (box_features (recs ! i)) =
          min (length (features ([mismatched_view] ! i))) (nat ([2] ! i)) \<and>
        length (roi_angles (recs ! i)) =
          min (length (detection_group.boxes ([mismatched_view] ! i))) (nat ([2] ! i)) \<and>
        length (boxes (recs ! i)) =
          min (length (detection_group.boxes ([mismatched_view] ! i))) (nat ([2] ! i)) \<and>
        length (masks (recs ! i)) =
          min (length (detection_group.masks ([mismatched_view] ! i))) (nat ([2] ! i)) \<and>
        length (class_probs (recs ! i)) =
          min (length (scores ([mismatched_view] ! i))) (nat ([2] ! i)) \<and>
        length (class_labels (recs ! i)) =
          min (length (labels ([mismatched_view] ! i))) (nat ([2] ! i)) \<and>
        num_objects (recs ! i) = min (length (features ([mismatched_view] ! i))) (nat ([2] ! i))"
    by blast
  then have "assemble_views linear_angles [2] [cam90] [mismatched_view] = Inr recs \<and>
      length recs = 1 \<and>
      length (box_features (recs ! 0)) = 2 \<and> length (roi_angles (recs ! 0)) = 1 \<and>
      length (boxes (recs ! 0)) = 1 \<and> length (masks (recs ! 0)) = 1 \<and>
      length (class_probs (recs ! 0)) = 2 \<and> length (class_labels (recs ! 0)) = 1 \<and>
      num_objects (recs ! 0) = 2"
    by (simp add: mismatched_view_def)
  with shape_preserving_linear_angles h2 h3 show ?thesis by blast
qed

section \<open>The cap table\<close>

text \<open>
  C9. When \<^verbatim>\<open>args.panoramic_boxes\<close> has fewer entries than the detector
  returned groups, the call ends with \<^verbatim>\<open>IndexError\<close> and returns no records;
  the iteration of every view at or beyond the length of the table raises it.
\<close>

theorem short_cap_table_fails:
  assumes "shape_preserving calc" and "length caps < length dets"
  shows "assemble_views calc caps cams dets = Inl IndexError \<and>
         (\<forall>i\<ge>length caps. get_visual_features_body calc caps cams dets i = Inl IndexError)"
proof -
  have out: "get_visual_features_body calc caps cams dets i = Inl IndexError"
    if "length caps \<le> i" for i
    using that by (simp add: get_visual_features_body_def list_index_def)
  have "assemble_views calc caps cams dets = Inl IndexError"
  proof (cases "assemble_views calc caps cams dets")
    case (Inl e)
    then obtain i where "get_visual_features_body calc caps cams dets i = Inl e"
      unfolding assemble_views_def by (blast dest: loop_Inl)
    from body_error [OF assms(1) this] Inl show ?thesis by simp
  next
    case (Inr recs)
    from assemble_views_Inr(2) [OF Inr assms(2)] out [of "length caps"]
    show ?thesis by simp
  qed
  with out show ?thesis by blast
qed

theorem short_cap_table_fails_witness:
  "shape_preserving linear_angles \<and> length [2 :: int] < length [view3, view0] \<and>
   assemble_views linear_angles [2] [cam90, cam90] [view3, view0] = Inl IndexError \<and>
   get_visual_features_body linear_angles [2] [cam90, cam90] [view3, view0] 1 = Inl IndexError"
proof -
  have h2: "length [2 :: int] < length [view3, view0]" by simp
  from short_cap_table_fails [OF shape_preserving_linear_angles h2, of "[cam90, cam90]"]
  have "assemble_views linear_angles [2] [cam90, cam90] [view3, view0] = Inl IndexError"
    and "get_visual_features_body linear_angles [2] [cam90, cam90] [view3, view0] 1 =
      Inl IndexError"
    by simp_all
  with shape_preserving_linear_angles h2 show ?thesis by blast
qed

section \<open>The whole call\<close>

text \<open>
  C7. Started with any state of the world and any log, the call runs
  \<^verbatim>\<open>create_panorama\<close> once on the environment and 0, then the image loader once on
  all panorama images with \<^verbatim>\<open>pack=True\<close>, then the region detector once on the
  packed batch moved to the device: the state it leaves is the state after these three
  runs, each on the state its predecessor left, and the log has grown by exactly these
  three calls, in this order. When the detector returns one group per view, the returned
  list has one record per view, in the order of the views, and record \<open>i\<close> is the one
  assembled for view \<open>i\<close> and carries \<^verbatim>\<open>camera_infos[i]\<close>.
\<close>

theorem get_visual_features_calls_and_order:
  assumes "create_panorama env 0 w0 = ((panorama_images, camera_infos), w1)"
    and "image_loader panorama_images True w1 = ((images, sizes), w2)"
    and "region_detector (to images cuda_device) w2 = (detector_results, w3)"
    and "length detector_results = length camera_infos"
    and "fst (get_visual_features create_panorama calc to env image_loader region_detector
           caps cuda_device (w0, log0)) = Inr recs"
  shows "snd (get_visual_features create_panorama calc to env image_loader region_detector
           caps cuda_device (w0, log0)) =
           (w3, log0 @ [Create_panorama env 0, Image_loader panorama_images True,
                        Region_detector (to images cuda_device)]) \<and>
         length recs = length camera_infos \<and>
         (\<forall>i<length camera_infos.
            camera_info (recs ! i) = camera_infos ! i \<and>
            get_visual_features_body calc caps camera_infos detector_results i = Inr (recs ! i))"
proof -
  have gvf: "get_visual_features create_panorama calc to env image_loader region_detector
           caps cuda_device (w0, log0) =
      (assemble_views calc caps camera_infos detector_results,
       (w3, log0 @ [Create_panorama env 0, Image_loader panorama_images True,
                    Region_detector (to images cuda_device)]))"
    using assms(1,2,3)
    by (simp add: get_visual_features_def call_create_panorama_def call_image_loader_def
          call_region_detector_def)
  with assms(5) have run: "assemble_views calc caps camera_infos detector_results = Inr recs"
    by simp
  have "camera_info (recs ! i) = camera_infos ! i \<and>
        get_visual_features_body calc caps camera_infos detector_results i = Inr (recs ! i)"
    if "i < length camera_infos" for i
  proof -
    from that assms(4) have i: "i < length detector_results" by simp
    from body_of_run [OF run i] assemble_views_Inr(2) [OF run i] show ?thesis by auto
  qed
  with gvf assemble_views_Inr(1) [OF run] assms(4) show ?thesis by simp
qed

theorem get_visual_features_calls_and_order_witness:
  "sample_create_panorama 0 0 (0, 0, 0) =
     (([''view 0'', ''view 1''], [cam90, cam90]), (1, 0, 0)) \<and>
   sample_image_loader [''view 0'', ''view 1''] True (1, 0, 0) =
     (([''view 0'', ''view 1''], [(300, 300), (300, 300)]), (1, 1, 0)) \<and>
   sample_region_detector (sample_to [''view 0'', ''view 1''] 0) (1, 1, 0) =
     ([view3, view0], (1, 1, 1)) \<and>
   length [view3, view0] = length [cam90, cam90] \<and>
   fst (get_visual_features sample_create_panorama linear_angles sample_to 0
          sample_image_loader sample_region_detector [2, 2] 0 ((0, 0, 0), [])) =
     Inr sample_records \<and>
   snd (get_visual_features sample_create_panorama linear_angles sample_to 0
          sample_image_loader sample_region_detector [2, 2] 0 ((0, 0, 0), [])) =
     ((1, 1, 1),
      [] @ [Create_panorama 0 0, Image_loader [''view 0'', ''view 1''] True,
            Region_detector (sample_to [''view 0'', ''view 1''] 0)]) \<and>
   length sample_records = length [cam90, cam90] \<and>
   camera_info (sample_records ! 1) = [cam90, cam90] ! 1 \<and>
   get_visual_features_body linear_angles [2, 2] [cam90, cam90] [view3, view0] 1 =
     Inr (sample_records ! 1)"
proof -
  have h1: "sample_create_panorama 0 0 (0, 0, 0) =
     (([''view 0'', ''view 1''], [cam90, cam90]), (1, 0, 0))"
    by (simp add: sample_create_panorama_def)
  have h2: "sample_image_loader [''view 0'', ''view 1''] True (1, 0, 0) =
     (([''view 0'', ''view 1''], [(300, 300), (300, 300)]), (1, 1, 0))"
    by (simp add: sample_image_loader_def)
  have h3: "sample_region_detector (sample_to [''view 0'', ''view 1''] 0) (1, 1, 0) =
      ([view3, view0], (1, 1, 1))"
    by (simp add: sample_region_detector_def)
  have h4: "length [view3, view0] = length [cam90, cam90]" by simp
  have h5: "fst (get_visual_features sample_create_panorama linear_angles sample_to 0
          sample_image_loader sample_region_detector [2, 2] 0 ((0, 0, 0), [])) =
      Inr sample_records"
    using sample_run
    by (simp add: get_visual_features_def call_create_panorama_def call_image_loader_def
          call_region_detector_def sample_create_panorama_def sample_image_loader_def
          sample_region_detector_def)
  have i: "(1::nat) < length [cam90, cam90]" by simp
  note inst = get_visual_features_calls_and_order [OF h1 h2 h3 h4 h5]
  from inst have "snd (get_visual_features sample_create_panorama linear_angles sample_to 0
          sample_image_loader sample_region_detector [2, 2] 0 ((0, 0, 0), [])) =
     ((1, 1, 1),
      [] @ [Create_panorama 0 0, Image_loader [''view 0'', ''view 1''] True,
            Region_detector (sample_to [''view 0'', ''view 1''] 0)])"
    and "length sample_records = length [cam90, cam90]" by blast+
  moreover from inst i have "camera_info (sample_records ! 1) = [cam90, cam90] ! 1"
    and "get_visual_features_body linear_angles [2, 2] [cam90, cam90] [view3, view0] 1 =
     Inr (sample_records ! 1)" by blast+
  ultimately show ?thesis using h1 h2 h3 h4 h5 by blast
qed

end
